theory Spec2Isabelle
  imports Complex_Main
begin

section \<open>Animation primitives: the pooled particle system\<close>

text \<open>
  The class \<open>ParticleSystem\<close> of the animation primitives, as a state record and one
  function per method. JavaScript numbers are modelled as exact reals (rounding, NaN and
  the infinities are outside the model; the one division of the frame update is by
  \<open>config.lifetime\<close>, and the statements about it name a non-zero lifetime).

  Particle objects and DOM elements are heap objects that the two arrays \<open>particles\<close>
  and \<open>particlePool\<close> hold by reference: \<open>indexOf\<close> compares references. The model keeps
  an explicit store for each kind (\<open>heap\<close>, \<open>elements\<close>), addressed by natural numbers;
  the arrays are lists of addresses. \<open>Math.random()\<close> is an input of \<open>spawnParticle\<close>.
  Of an element only what the class writes after creation is kept: the transform, the
  opacity and whether the element still has a parent node.
\<close>

datatype css_transform = InitialTransform | Translate3dScale real real real

record Element =
  style_transform :: css_transform
  style_opacity :: "real option"
  hasParent :: bool

record Particle =
  p_x :: real
  p_y :: real
  p_vx :: real
  p_vy :: real
  p_opacity :: real
  p_scale :: real
  p_element :: nat
  p_active :: bool

record Range =
  r_min :: real
  r_max :: real

record ParticleSystemConfig =
  c_count :: int
  c_colors :: "string list"
  c_size :: Range
  c_speed :: Range
  c_opacity :: Range
  c_lifetime :: real

record Container =
  offsetWidth :: real
  offsetHeight :: real

record ParticleSystem =
  particles :: "nat list"
  particlePool :: "nat list"
  container :: Container
  config :: ParticleSystemConfig
  animationFrame :: nat
  isRunning :: bool
  lastTime :: real
  heap :: "nat \<Rightarrow> Particle"
  heap_next :: nat
  elements :: "nat \<Rightarrow> Element"
  elements_next :: nat
  raf_pending :: "nat list"
  raf_counter :: nat

text \<open>\<open>requestAnimationFrame\<close> hands out handles 1, 2, 3, ... (never 0) and remembers the
  request; \<open>cancelAnimationFrame\<close> forgets it.\<close>

definition requestAnimationFrame :: "ParticleSystem \<Rightarrow> nat \<times> ParticleSystem" where
  "requestAnimationFrame s =
     (let h = Suc (raf_counter s)
      in (h, s\<lparr>raf_pending := raf_pending s @ [h], raf_counter := h\<rparr>))"

definition cancelAnimationFrame :: "nat \<Rightarrow> ParticleSystem \<Rightarrow> ParticleSystem" where
  "cancelAnimationFrame h s = s\<lparr>raf_pending := removeAll h (raf_pending s)\<rparr>"

text \<open>\<open>createParticleElement\<close>: a fresh element, appended to the container. Its size and
  colour are fixed at creation and never read again; they are not part of the model.\<close>

definition createParticleElement :: "ParticleSystem \<Rightarrow> nat \<times> ParticleSystem" where
  "createParticleElement s =
     (let e = elements_next s
      in (e, s\<lparr>elements := (elements s)
                 (e := \<lparr>style_transform = InitialTransform, style_opacity = None,
                        hasParent = True\<rparr>),
               elements_next := Suc e\<rparr>))"

definition createPool_body :: "ParticleSystem \<Rightarrow> ParticleSystem" where
  "createPool_body s =
     (let (e, s1) = createParticleElement s;
          a = heap_next s1;
          particle = \<lparr>p_x = 0, p_y = 0, p_vx = 0, p_vy = 0, p_opacity = 0, p_scale = 1,
                      p_element = e, p_active = False\<rparr>
      in s1\<lparr>heap := (heap s1)(a := particle), heap_next := Suc a,
             particlePool := particlePool s1 @ [a]\<rparr>)"

lemma config_createPool_body: "config (createPool_body s) = config s"
  by (simp add: createPool_body_def createParticleElement_def Let_def)

function createPool_loop :: "nat \<Rightarrow> ParticleSystem \<Rightarrow> ParticleSystem" where
  "createPool_loop i s =
     (if int i < c_count (config s) then createPool_loop (Suc i) (createPool_body s) else s)"
  by pat_completeness auto
termination
  by (relation "measure (\<lambda>(i, s). nat (c_count (config s) - int i))")
     (auto simp: config_createPool_body)

declare createPool_loop.simps [simp del]

definition createPool :: "ParticleSystem \<Rightarrow> ParticleSystem" where
  "createPool s = createPool_loop 0 s"

definition blank_particle :: Particle where
  "blank_particle = \<lparr>p_x = 0, p_y = 0, p_vx = 0, p_vy = 0, p_opacity = 0, p_scale = 1,
                      p_element = 0, p_active = False\<rparr>"

definition blank_element :: Element where
  "blank_element = \<lparr>style_transform = InitialTransform, style_opacity = None,
                     hasParent = False\<rparr>"

text \<open>The constructor. Addresses not yet allocated hold a blank object.\<close>

definition construct :: "Container \<Rightarrow> ParticleSystemConfig \<Rightarrow> ParticleSystem" where
  "construct cont cfg =
     createPool \<lparr>particles = [], particlePool = [], container = cont, config = cfg,
                 animationFrame = 0, isRunning = False, lastTime = 0,
                 heap = (\<lambda>_. blank_particle), heap_next = 0,
                 elements = (\<lambda>_. blank_element), elements_next = 0,
                 raf_pending = [], raf_counter = 0\<rparr>"

text \<open>\<open>getParticle\<close>: \<open>pop\<close> takes the last entry of the pool; an empty pool gives \<open>null\<close>.\<close>

definition getParticle :: "ParticleSystem \<Rightarrow> nat option \<times> ParticleSystem" where
  "getParticle s =
     (if particlePool s = [] then (None, s)
      else (let a = last (particlePool s);
                s1 = s\<lparr>particlePool := butlast (particlePool s)\<rparr>;
                s2 = s1\<lparr>heap := (heap s1)(a := (heap s1 a)\<lparr>p_active := True\<rparr>)\<rparr>
            in (Some a, s2\<lparr>particles := particles s2 @ [a]\<rparr>)))"

text \<open>\<open>Array.prototype.indexOf\<close>: the first index holding the reference, or -1.\<close>

fun indexOf :: "nat list \<Rightarrow> nat \<Rightarrow> int" where
  "indexOf [] a = - 1"
| "indexOf (b # bs) a =
     (if b = a then 0 else (let i = indexOf bs a in if i > - 1 then i + 1 else - 1))"

definition splice1 :: "nat \<Rightarrow> 'a list \<Rightarrow> 'a list" where
  "splice1 i xs = take i xs @ drop (Suc i) xs"

definition returnParticle :: "nat \<Rightarrow> ParticleSystem \<Rightarrow> ParticleSystem" where
  "returnParticle a s =
     (let s1 = s\<lparr>heap := (heap s)(a := (heap s a)\<lparr>p_active := False\<rparr>)\<rparr>;
          e = p_element (heap s1 a);
          s2 = s1\<lparr>elements := (elements s1)(e := (elements s1 e)\<lparr>style_opacity := Some 0\<rparr>)\<rparr>;
          index = indexOf (particles s2) a
      in if index > - 1
         then s2\<lparr>particles := splice1 (nat index) (particles s2),
                 particlePool := particlePool s2 @ [a]\<rparr>
         else s2)"

definition updateParticleElement :: "nat \<Rightarrow> ParticleSystem \<Rightarrow> ParticleSystem" where
  "updateParticleElement a s =
     (let p = heap s a; e = p_element p
      in s\<lparr>elements := (elements s)
              (e := (elements s e)\<lparr>style_transform := Translate3dScale (p_x p) (p_y p) (p_scale p),
                                   style_opacity := Some (p_opacity p)\<rparr>)\<rparr>)"

text \<open>\<open>spawnParticle(x, y, vx, vy)\<close>; \<open>r1\<close> and \<open>r2\<close> are the two values \<open>Math.random()\<close>
  returns.\<close>

definition spawnParticle ::
  "real \<Rightarrow> real \<Rightarrow> real \<Rightarrow> real \<Rightarrow> real \<Rightarrow> real \<Rightarrow> ParticleSystem \<Rightarrow> ParticleSystem" where
  "spawnParticle x y vx vy r1 r2 s =
     (case getParticle s of
        (None, s') \<Rightarrow> s'
      | (Some a, s') \<Rightarrow>
          (let op = c_opacity (config s');
               p = (heap s' a)\<lparr>p_x := x, p_y := y, p_vx := vx, p_vy := vy,
                     p_opacity := r_min op + r1 * (r_max op - r_min op),
                     p_scale := 0.5 + r2 * 0.5\<rparr>
           in updateParticleElement a (s'\<lparr>heap := (heap s')(a := p)\<rparr>)))"

text \<open>One pass of the loop body of \<open>updateParticles\<close>, at index \<open>i\<close>.\<close>

definition out_of_play :: "Container \<Rightarrow> Particle \<Rightarrow> bool" where
  "out_of_play cont p \<longleftrightarrow>
     p_opacity p \<le> 0 \<or> p_x p < - 50 \<or> p_x p > offsetWidth cont + 50 \<or>
     p_y p < - 50 \<or> p_y p > offsetHeight cont + 50"

definition advance :: "real \<Rightarrow> real \<Rightarrow> Particle \<Rightarrow> Particle" where
  "advance deltaTime lifetime p =
     p\<lparr>p_x := p_x p + p_vx p * deltaTime,
       p_y := p_y p + p_vy p * deltaTime,
       p_opacity := p_opacity p - deltaTime / lifetime\<rparr>"

definition updateParticles_body :: "real \<Rightarrow> nat \<Rightarrow> ParticleSystem \<Rightarrow> ParticleSystem" where
  "updateParticles_body deltaTime i s =
     (let a = particles s ! i;
          s1 = s\<lparr>heap := (heap s)(a := advance deltaTime (c_lifetime (config s)) (heap s a))\<rparr>
      in if out_of_play (container s1) (heap s1 a) then returnParticle a s1
         else updateParticleElement a s1)"

text \<open>The loop \<open>for (i = length - 1; i >= 0; i--)\<close>: \<open>updateParticles_loop dt n\<close> runs the
  body at the indices \<open>n - 1\<close>, ..., \<open>0\<close>. An index read is always in range: one pass
  removes at most one entry and the index goes down by one.\<close>

primrec updateParticles_loop :: "real \<Rightarrow> nat \<Rightarrow> ParticleSystem \<Rightarrow> ParticleSystem" where
  "updateParticles_loop deltaTime 0 s = s"
| "updateParticles_loop deltaTime (Suc i) s =
     updateParticles_loop deltaTime i (updateParticles_body deltaTime i s)"

definition updateParticles :: "real \<Rightarrow> ParticleSystem \<Rightarrow> ParticleSystem" where
  "updateParticles deltaTime s = updateParticles_loop deltaTime (length (particles s)) s"

text \<open>The frame callback. \<open>this.lastTime || currentTime\<close> takes \<open>currentTime\<close> when
  \<open>lastTime\<close> is 0.\<close>

definition frame_deltaTime :: "real \<Rightarrow> real \<Rightarrow> real" where
  "frame_deltaTime lastT currentTime =
     min ((currentTime - (if lastT = 0 then currentTime else lastT)) / 1000) 0.016"

definition animate :: "real \<Rightarrow> ParticleSystem \<Rightarrow> ParticleSystem" where
  "animate currentTime s =
     (if \<not> isRunning s then s
      else (let deltaTime = frame_deltaTime (lastTime s) currentTime;
                s1 = updateParticles deltaTime (s\<lparr>lastTime := currentTime\<rparr>);
                (h, s2) = requestAnimationFrame s1
            in s2\<lparr>animationFrame := h\<rparr>))"

definition start :: "ParticleSystem \<Rightarrow> ParticleSystem" where
  "start s =
     (if isRunning s then s
      else (let (h, s1) = requestAnimationFrame (s\<lparr>isRunning := True\<rparr>)
            in s1\<lparr>animationFrame := h\<rparr>))"

definition stop :: "ParticleSystem \<Rightarrow> ParticleSystem" where
  "stop s =
     (let s1 = s\<lparr>isRunning := False\<rparr>
      in if animationFrame s1 \<noteq> 0
         then (cancelAnimationFrame (animationFrame s1) s1)\<lparr>animationFrame := 0\<rparr>
         else s1)"

lemma indexOf_mem: "indexOf xs a > - 1 \<longleftrightarrow> a \<in> set xs"
  by (induction xs) (auto simp: Let_def)

lemma indexOf_nonneg: "a \<in> set xs \<Longrightarrow> 0 \<le> indexOf xs a"
  by (induction xs) (auto simp: Let_def)

lemma splice1_indexOf: "a \<in> set xs \<Longrightarrow> splice1 (nat (indexOf xs a)) xs = remove1 a xs"
proof (induction xs)
  case Nil
  then show ?case by simp
next
  case (Cons b bs)
  show ?case
  proof (cases "b = a")
    case True
    then show ?thesis by (simp add: splice1_def)
  next
    case False
    with Cons.prems have mem: "a \<in> set bs" by simp
    then have nn: "0 \<le> indexOf bs a" by (rule indexOf_nonneg)
    then have "nat (indexOf bs a + 1) = Suc (nat (indexOf bs a))" by simp
    with False mem nn Cons.IH show ?thesis
      by (simp add: splice1_def Let_def)
  qed
qed

lemma particles_returnParticle:
  "particles (returnParticle a s) = remove1 a (particles s)"
  by (cases "a \<in> set (particles s)")
     (simp_all add: returnParticle_def Let_def indexOf_mem splice1_indexOf remove1_idem)

lemma particlePool_returnParticle:
  "particlePool (returnParticle a s) =
     (if a \<in> set (particles s) then particlePool s @ [a] else particlePool s)"
  by (simp add: returnParticle_def Let_def indexOf_mem)

lemma length_returnParticle_head:
  "particles s \<noteq> [] \<Longrightarrow>
     length (particles (returnParticle (hd (particles s)) s)) < length (particles s)"
  by (cases "particles s") (simp_all add: particles_returnParticle)

text \<open>\<open>reset\<close>: stop, then \<open>while (particles.length > 0) returnParticle(particles[0])\<close>.\<close>

function reset_loop :: "ParticleSystem \<Rightarrow> ParticleSystem" where
  "reset_loop s =
     (if particles s \<noteq> [] then reset_loop (returnParticle (hd (particles s)) s) else s)"
  by pat_completeness auto
termination
  by (relation "measure (\<lambda>s. length (particles s))")
     (auto simp: length_returnParticle_head)

declare reset_loop.simps [simp del]

definition reset :: "ParticleSystem \<Rightarrow> ParticleSystem" where
  "reset s = reset_loop (stop s)"

text \<open>\<open>cleanup\<close>: reset, detach the element of every particle of
  \<open>[...particlePool, ...particles]\<close> that still has a parent, empty both arrays.\<close>

definition removeElement :: "ParticleSystem \<Rightarrow> nat \<Rightarrow> ParticleSystem" where
  "removeElement s a =
     (let e = p_element (heap s a)
      in if hasParent (elements s e)
         then s\<lparr>elements := (elements s)(e := (elements s e)\<lparr>hasParent := False\<rparr>)\<rparr>
         else s)"

definition cleanup :: "ParticleSystem \<Rightarrow> ParticleSystem" where
  "cleanup s =
     (let s1 = reset s;
          s2 = foldl removeElement s1 (particlePool s1 @ particles s1)
      in s2\<lparr>particles := [], particlePool := []\<rparr>)"

text \<open>The browser fires the callbacks requested for a frame: the pending list is taken
  and emptied, and \<open>animate\<close> runs once for each handle of it.\<close>

definition fireFrame :: "real \<Rightarrow> ParticleSystem \<Rightarrow> ParticleSystem" where
  "fireFrame currentTime s =
     foldl (\<lambda>s' h. animate currentTime s') (s\<lparr>raf_pending := []\<rparr>) (raf_pending s)"

text \<open>The operations a client and the browser perform on a live system.\<close>

datatype ps_op =
    Spawn real real real real real real
  | Frame real
  | Start
  | Stop
  | Reset
  | Cleanup

fun ps_apply :: "ParticleSystem \<Rightarrow> ps_op \<Rightarrow> ParticleSystem" where
  "ps_apply s (Spawn x y vx vy r1 r2) = spawnParticle x y vx vy r1 r2 s"
| "ps_apply s (Frame t) = fireFrame t s"
| "ps_apply s Start = start s"
| "ps_apply s Stop = stop s"
| "ps_apply s Reset = reset s"
| "ps_apply s Cleanup = cleanup s"

definition ps_run :: "ps_op list \<Rightarrow> ParticleSystem \<Rightarrow> ParticleSystem" where
  "ps_run ops s = foldl ps_apply s ops"

fun is_Spawn :: "ps_op \<Rightarrow> bool" where
  "is_Spawn (Spawn x y vx vy r1 r2) = True"
| "is_Spawn _ = False"

text \<open>The hero section's configuration, as the animated background builds it, and a
  container of 1200 by 800 pixels.\<close>

definition hero_config :: ParticleSystemConfig where
  "hero_config =
     \<lparr>c_count = 60,
      c_colors = [''rgba(154, 205, 50, 0.4)'', ''rgba(241, 241, 240, 0.3)''],
      c_size = \<lparr>r_min = 2, r_max = 4\<rparr>,
      c_speed = \<lparr>r_min = 0.5, r_max = 1.5\<rparr>,
      c_opacity = \<lparr>r_min = 0.3, r_max = 0.8\<rparr>,
      c_lifetime = 8000\<rparr>"

definition hero_container :: Container where
  "hero_container = \<lparr>offsetWidth = 1200, offsetHeight = 800\<rparr>"

subsection \<open>The pool and the active list\<close>

lemma lists_getParticle:
  "particlePool s \<noteq> [] \<Longrightarrow>
     particles (snd (getParticle s)) = particles s @ [last (particlePool s)] \<and>
     particlePool (snd (getParticle s)) = butlast (particlePool s) \<and>
     fst (getParticle s) = Some (last (particlePool s))"
  by (simp add: getParticle_def Let_def)

lemma lists_updateParticleElement [simp]:
  "particles (updateParticleElement a s) = particles s"
  "particlePool (updateParticleElement a s) = particlePool s"
  by (simp_all add: updateParticleElement_def Let_def)

lemma spawnParticle_empty: "particlePool s = [] \<Longrightarrow> spawnParticle x y vx vy r1 r2 s = s"
  by (simp add: spawnParticle_def getParticle_def)

lemma lists_spawnParticle:
  "particlePool s \<noteq> [] \<Longrightarrow>
     particles (spawnParticle x y vx vy r1 r2 s) = particles s @ [last (particlePool s)] \<and>
     particlePool (spawnParticle x y vx vy r1 r2 s) = butlast (particlePool s)"
  by (simp add: spawnParticle_def getParticle_def Let_def)

definition members :: "ParticleSystem \<Rightarrow> nat set" where
  "members s = set (particles s) \<union> set (particlePool s)"

definition exclusive :: "ParticleSystem \<Rightarrow> bool" where
  "exclusive s \<longleftrightarrow> distinct (particles s @ particlePool s)"

lemma members_spawnParticle: "members (spawnParticle x y vx vy r1 r2 s) = members s"
proof (cases "particlePool s" rule: rev_cases)
  case Nil
  then show ?thesis by (simp add: spawnParticle_empty)
next
  case (snoc bs b)
  then show ?thesis
    using lists_spawnParticle [of s x y vx vy r1 r2] by (auto simp: members_def)
qed

lemma exclusive_spawnParticle:
  assumes "exclusive s" shows "exclusive (spawnParticle x y vx vy r1 r2 s)"
proof (cases "particlePool s" rule: rev_cases)
  case Nil
  with assms show ?thesis by (simp add: spawnParticle_empty)
next
  case (snoc bs b)
  with assms show ?thesis
    using lists_spawnParticle [of s x y vx vy r1 r2] by (auto simp: exclusive_def)
qed

lemma members_returnParticle: "members (returnParticle a s) = members s"
proof (cases "a \<in> set (particles s)")
  case True
  then have "insert a (set (remove1 a (particles s))) = set (particles s)"
  proof -
    have "\<And>b. b \<noteq> a \<Longrightarrow> b \<in> set (remove1 a (particles s)) \<longleftrightarrow> b \<in> set (particles s)"
      by (rule in_set_remove1)
    moreover have "set (remove1 a (particles s)) \<subseteq> set (particles s)"
      by (rule set_remove1_subset)
    ultimately show ?thesis using True by blast
  qed
  with True show ?thesis
    by (auto simp: members_def particles_returnParticle particlePool_returnParticle)
next
  case False
  then show ?thesis
    by (simp add: members_def particles_returnParticle particlePool_returnParticle remove1_idem)
qed

lemma exclusive_returnParticle: "exclusive s \<Longrightarrow> exclusive (returnParticle a s)"
  by (cases "a \<in> set (particles s)")
     (auto simp: exclusive_def particles_returnParticle particlePool_returnParticle remove1_idem
      dest: notin_set_remove1)

lemma lists_heap_update [simp]:
  "particles (s\<lparr>heap := h\<rparr>) = particles s" "particlePool (s\<lparr>heap := h\<rparr>) = particlePool s"
  by simp_all

lemma members_body: "members (updateParticles_body dt i s) = members s"
  using members_returnParticle [of "particles s ! i" "s\<lparr>heap := (heap s)(particles s ! i := advance dt (c_lifetime (config s)) (heap s (particles s ! i)))\<rparr>"]
  by (simp add: updateParticles_body_def Let_def members_def)

lemma exclusive_body: "exclusive s \<Longrightarrow> exclusive (updateParticles_body dt i s)"
  using exclusive_returnParticle [of "s\<lparr>heap := (heap s)(particles s ! i := advance dt (c_lifetime (config s)) (heap s (particles s ! i)))\<rparr>" "particles s ! i"]
  by (simp add: updateParticles_body_def Let_def exclusive_def)

lemma members_loop: "members (updateParticles_loop dt n s) = members s"
  by (induction n arbitrary: s) (simp_all add: members_body)

lemma exclusive_loop: "exclusive s \<Longrightarrow> exclusive (updateParticles_loop dt n s)"
  by (induction n arbitrary: s) (simp_all add: exclusive_body)

lemma members_animate: "members (animate t s) = members s"
  using members_loop [of "frame_deltaTime (lastTime s) t" "length (particles s)" "s\<lparr>lastTime := t\<rparr>"]
  by (simp add: animate_def Let_def updateParticles_def requestAnimationFrame_def members_def)

lemma exclusive_animate: "exclusive s \<Longrightarrow> exclusive (animate t s)"
  using exclusive_loop [of "s\<lparr>lastTime := t\<rparr>" "frame_deltaTime (lastTime s) t" "length (particles s)"]
  by (simp add: animate_def Let_def updateParticles_def requestAnimationFrame_def exclusive_def)

lemma members_foldl_animate: "members (foldl (\<lambda>s' h. animate t s') s hs) = members s"
  by (induction hs arbitrary: s) (simp_all add: members_animate)

lemma exclusive_foldl_animate:
  "exclusive s \<Longrightarrow> exclusive (foldl (\<lambda>s' h. animate t s') s hs)"
  by (induction hs arbitrary: s) (simp_all add: exclusive_animate)

lemma members_fireFrame: "members (fireFrame t s) = members s"
  by (simp add: fireFrame_def members_foldl_animate) (simp add: members_def)

lemma exclusive_fireFrame: "exclusive s \<Longrightarrow> exclusive (fireFrame t s)"
  unfolding fireFrame_def by (rule exclusive_foldl_animate) (simp add: exclusive_def)

lemma lists_start [simp]:
  "particles (start s) = particles s" "particlePool (start s) = particlePool s"
  by (simp_all add: start_def requestAnimationFrame_def Let_def)

lemma lists_stop [simp]:
  "particles (stop s) = particles s" "particlePool (stop s) = particlePool s"
  by (simp_all add: stop_def cancelAnimationFrame_def Let_def)

lemma members_reset_loop: "members (reset_loop s) = members s"
proof (induction s rule: reset_loop.induct)
  case (1 s)
  then show ?case
    by (subst reset_loop.simps) (simp add: members_returnParticle)
qed

lemma exclusive_reset_loop: "exclusive s \<Longrightarrow> exclusive (reset_loop s)"
proof (induction s rule: reset_loop.induct)
  case (1 s)
  then show ?case
    by (subst reset_loop.simps) (simp add: exclusive_returnParticle)
qed

lemma particles_reset_loop: "particles (reset_loop s) = []"
proof (induction s rule: reset_loop.induct)
  case (1 s)
  then show ?case
    by (subst reset_loop.simps) simp
qed

lemma members_reset: "members (reset s) = members s"
  by (simp add: reset_def members_reset_loop) (simp add: members_def)

lemma exclusive_reset: "exclusive s \<Longrightarrow> exclusive (reset s)"
  unfolding reset_def by (rule exclusive_reset_loop) (simp add: exclusive_def)

lemma lists_cleanup [simp]:
  "particles (cleanup s) = []" "particlePool (cleanup s) = []"
  by (simp_all add: cleanup_def Let_def)


lemma lists_createPool_body:
  "particles (createPool_body s) = particles s"
  "particlePool (createPool_body s) = particlePool s @ [heap_next s]"
  "heap_next (createPool_body s) = Suc (heap_next s)"
  by (simp_all add: createPool_body_def createParticleElement_def Let_def)

lemma lists_createPool_loop:
  "particles (createPool_loop i s) = particles s \<and>
   particlePool (createPool_loop i s) =
     particlePool s @ [heap_next s ..< heap_next s + nat (c_count (config s) - int i)]"
proof (induction i s rule: createPool_loop.induct)
  case (1 i s)
  show ?case
  proof (cases "int i < c_count (config s)")
    case True
    then have n: "nat (c_count (config s) - int i) = Suc (nat (c_count (config s) - int (Suc i)))"
      by simp
    have "[heap_next s ..< heap_next s + nat (c_count (config s) - int i)] =
          heap_next s # [Suc (heap_next s) ..< Suc (heap_next s) + nat (c_count (config s) - int (Suc i))]"
      unfolding n by (simp add: upt_rec)
    with True "1.IH" show ?thesis
      by (subst (1 2) createPool_loop.simps)
         (simp add: lists_createPool_body config_createPool_body)
  next
    case False
    then show ?thesis by (subst (1 2) createPool_loop.simps) simp
  qed
qed

lemma lists_construct:
  "particles (construct cont cfg) = []"
  "particlePool (construct cont cfg) = [0 ..< nat (c_count cfg)]"
  using lists_createPool_loop [of 0 "\<lparr>particles = [], particlePool = [], container = cont, config = cfg,
                 animationFrame = 0, isRunning = False, lastTime = 0,
                 heap = (\<lambda>_. blank_particle), heap_next = 0,
                 elements = (\<lambda>_. blank_element), elements_next = 0,
                 raf_pending = [], raf_counter = 0\<rparr>"]
  by (simp_all add: construct_def createPool_def)

lemma members_construct: "members (construct cont cfg) = {0 ..< nat (c_count cfg)}"
  by (simp add: members_def lists_construct)

lemma exclusive_construct: "exclusive (construct cont cfg)"
  by (simp add: exclusive_def lists_construct)

definition confined :: "nat set \<Rightarrow> ParticleSystem \<Rightarrow> bool" where
  "confined A s \<longleftrightarrow> exclusive s \<and> members s \<subseteq> A"

lemma confined_apply: "confined A s \<Longrightarrow> confined A (ps_apply s op)"
  by (cases op)
     (simp_all add: confined_def members_spawnParticle exclusive_spawnParticle members_fireFrame
        exclusive_fireFrame members_reset exclusive_reset,
      simp_all add: members_def exclusive_def)

lemma confined_run: "confined A s \<Longrightarrow> confined A (ps_run ops s)"
  unfolding ps_run_def by (induction ops arbitrary: s) (simp_all add: confined_apply)

lemma confined_length:
  assumes "confined A s" "finite A" shows "length (particles s) \<le> card A"
proof -
  from assms(1) have d: "distinct (particles s)" and sub: "set (particles s) \<subseteq> A"
    by (auto simp: confined_def exclusive_def members_def)
  from d have "length (particles s) = card (set (particles s))"
    by (simp add: distinct_card)
  also have "\<dots> \<le> card A" using sub assms(2) by (rule card_mono [rotated])
  finally show ?thesis .
qed

lemma spawn_burst:
  "\<forall>op \<in> set ops. is_Spawn op \<Longrightarrow>
     length (particles (ps_run ops s)) = length (particles s) + min (length ops) (length (particlePool s)) \<and>
     ps_run ops s = ps_run (take (length (particlePool s)) ops) s"
proof (induction ops arbitrary: s)
  case Nil
  then show ?case by (simp add: ps_run_def)
next
  case (Cons op ops)
  then obtain x y vx vy r1 r2 where op: "op = Spawn x y vx vy r1 r2"
    by (cases op) auto
  from Cons.prems have rest: "\<forall>op \<in> set ops. is_Spawn op" by simp
  show ?case
  proof (cases "particlePool s = []")
    case True
    then have same: "ps_apply s op = s" by (simp add: op spawnParticle_empty)
    from Cons.IH [OF rest, of s] True same show ?thesis
      by (simp add: ps_run_def)
  next
    case False
    let ?s' = "spawnParticle x y vx vy r1 r2 s"
    from False have l: "particles ?s' = particles s @ [last (particlePool s)]"
      and p: "particlePool ?s' = butlast (particlePool s)"
      by (simp_all add: lists_spawnParticle)
    from False obtain k where k: "length (particlePool s) = Suc k"
      by (cases "particlePool s") auto
    have pl: "length (particlePool ?s') = k" using p k by simp
    note ih = Cons.IH [OF rest, of ?s', unfolded pl ps_run_def]
    from ih have eq: "foldl ps_apply ?s' ops = foldl ps_apply ?s' (take k ops)" ..
    from ih have "length (particles (foldl ps_apply ?s' ops)) =
        length (particles ?s') + min (length ops) k" ..
    then have len: "length (particles (foldl ps_apply ?s' ops)) =
        Suc (length (particles s) + min (length ops) k)" using l by simp
    from len k show ?thesis
      unfolding ps_run_def op by (simp add: eq [symmetric])
  qed
qed

text \<open>
  Claim C1. Once the free pool is exhausted, \<open>spawnParticle\<close> is a no-op: it returns
  the state it was given (no particle allocated, no particle or element changed; the
  method has no path that throws). Whatever operations follow the construction with
  \<open>config.count = N\<close>, the active list never holds more than \<open>N\<close> particles. With a pool
  of 60, a burst of 1000 spawn calls leaves exactly 60 particles active, and the state is
  the one the first 60 calls produced: the other 940 had no effect.
\<close>

theorem spawnParticle_capacity:
  "(particlePool s = [] \<longrightarrow> spawnParticle x y vx vy r1 r2 s = s) \<and>
   length (particles (ps_run ops (construct cont cfg))) \<le> nat (c_count cfg) \<and>
   (c_count cfg = 60 \<and> length burst = 1000 \<and> list_all is_Spawn burst \<longrightarrow>
      length (particles (ps_run burst (construct cont cfg))) = 60 \<and>
      ps_run burst (construct cont cfg) = ps_run (take 60 burst) (construct cont cfg))"
proof (intro conjI impI)
  assume "particlePool s = []"
  then show "spawnParticle x y vx vy r1 r2 s = s" by (rule spawnParticle_empty)
next
  have "confined {0 ..< nat (c_count cfg)} (construct cont cfg)"
    by (simp add: confined_def exclusive_construct members_construct)
  then have "confined {0 ..< nat (c_count cfg)} (ps_run ops (construct cont cfg))"
    by (rule confined_run)
  then have "length (particles (ps_run ops (construct cont cfg))) \<le> card {0 ..< nat (c_count cfg)}"
    by (rule confined_length) simp
  then show "length (particles (ps_run ops (construct cont cfg))) \<le> nat (c_count cfg)" by simp
next
  assume h: "c_count cfg = 60 \<and> length burst = 1000 \<and> list_all is_Spawn burst"
  then have sp: "\<forall>op \<in> set burst. is_Spawn op" by (simp add: list_all_iff)
  from h have pool: "length (particlePool (construct cont cfg)) = 60"
    by (simp add: lists_construct)
  note b = spawn_burst [OF sp, of "construct cont cfg", unfolded pool]
  from b [THEN conjunct1] show "length (particles (ps_run burst (construct cont cfg))) = 60"
    using h by (simp add: lists_construct)
  from b show "ps_run burst (construct cont cfg) = ps_run (take 60 burst) (construct cont cfg)" ..
qed

theorem spawnParticle_capacity_witness:
  "spawnParticle 100 200 1 1 (1/2) (1/2) (cleanup (construct hero_container hero_config))
     = cleanup (construct hero_container hero_config) \<and>
   length (particles (ps_run (replicate 1000 (Spawn 100 200 1 1 (1/2) (1/2)))
     (construct hero_container hero_config))) = 60"
proof -
  have h: "c_count hero_config = 60 \<and>
      length (replicate 1000 (Spawn 100 200 1 1 (1/2) (1/2))) = 1000 \<and>
      list_all is_Spawn (replicate 1000 (Spawn 100 200 1 1 (1/2) (1/2)))"
    by (simp add: hero_config_def list_all_iff)
  have e: "particlePool (cleanup (construct hero_container hero_config)) = []" by simp
  from spawnParticle_capacity
    [of "cleanup (construct hero_container hero_config)" 100 200 1 1 "1/2" "1/2" "[]"
        hero_container hero_config "replicate 1000 (Spawn 100 200 1 1 (1/2) (1/2))"] h e
  show ?thesis by blast
qed

subsection \<open>The partition invariant\<close>

definition partitioned :: "nat list \<Rightarrow> ParticleSystem \<Rightarrow> bool" where
  "partitioned created s \<longleftrightarrow>
     list_all (\<lambda>a. (a \<in> set (particles s)) \<noteq> (a \<in> set (particlePool s))) created \<and>
     set (particles s) \<union> set (particlePool s) = set created \<and>
     distinct (particles s @ particlePool s)"

fun keeps_alive :: "ps_op \<Rightarrow> bool" where
  "keeps_alive Cleanup = False"
| "keeps_alive _ = True"

lemma alive_apply:
  "keeps_alive op \<Longrightarrow> members (ps_apply s op) = members s \<and> (exclusive s \<longrightarrow> exclusive (ps_apply s op))"
  by (cases op)
     (simp_all add: members_spawnParticle exclusive_spawnParticle members_fireFrame
        exclusive_fireFrame members_reset exclusive_reset,
      simp_all add: members_def exclusive_def)

lemma alive_run:
  "list_all keeps_alive ops \<Longrightarrow>
     members (ps_run ops s) = members s \<and> (exclusive s \<longrightarrow> exclusive (ps_run ops s))"
  unfolding ps_run_def
proof (induction ops arbitrary: s)
  case Nil
  then show ?case by simp
next
  case (Cons op ops)
  then have a: "keeps_alive op" and r: "list_all keeps_alive ops" by simp_all
  from alive_apply [OF a, of s] Cons.IH [OF r, of "ps_apply s op"] show ?case by simp
qed

lemma partitioned_iff:
  "partitioned created s \<longleftrightarrow> members s = set created \<and> exclusive s"
  by (auto simp: partitioned_def members_def exclusive_def list_all_iff)

text \<open>
  Claim C2. The particles created at construction are partitioned between the free pool
  and the active list: each is in exactly one of the two, once. The partition holds
  after construction, after every sequence of \<open>spawnParticle\<close>, frame updates, \<open>start\<close>,
  \<open>stop\<close> and \<open>reset\<close>, and each of these operations preserves it from any state:
  particles move between the collections and none is lost before \<open>cleanup\<close>.
\<close>

theorem pool_partition_invariant:
  "partitioned (particlePool (construct cont cfg)) (construct cont cfg) \<and>
   length (particlePool (construct cont cfg)) = nat (c_count cfg) \<and>
   (list_all keeps_alive ops \<longrightarrow>
      partitioned (particlePool (construct cont cfg)) (ps_run ops (construct cont cfg))) \<and>
   (keeps_alive op \<and> partitioned created s \<longrightarrow> partitioned created (ps_apply s op))"
proof (intro conjI impI)
  show p0: "partitioned (particlePool (construct cont cfg)) (construct cont cfg)"
    by (simp add: partitioned_iff exclusive_construct members_construct lists_construct)
  show "length (particlePool (construct cont cfg)) = nat (c_count cfg)"
    by (simp add: lists_construct)
  assume "list_all keeps_alive ops"
  from alive_run [OF this, of "construct cont cfg"] p0
  show "partitioned (particlePool (construct cont cfg)) (ps_run ops (construct cont cfg))"
    by (simp add: partitioned_iff)
next
  assume "keeps_alive op \<and> partitioned created s"
  with alive_apply [of op s] show "partitioned created (ps_apply s op)"
    by (simp add: partitioned_iff)
qed

theorem pool_partition_invariant_witness:
  "partitioned (particlePool (construct hero_container hero_config))
     (ps_run [Start, Spawn 100 200 1 1 (1/2) (1/2), Frame 16, Spawn 5 5 0 0 0 0, Frame 33, Stop, Reset]
        (construct hero_container hero_config)) \<and>
   partitioned [0 ..< 60] (ps_apply (construct hero_container hero_config) (Spawn 100 200 1 1 (1/2) (1/2)))"
proof -
  have a: "list_all keeps_alive [Start, Spawn 100 200 1 1 (1/2) (1/2), Frame 16, Spawn 5 5 0 0 0 0, Frame 33, Stop, Reset]"
    by simp
  have b: "keeps_alive (Spawn 100 200 1 1 (1/2) (1/2))" by simp
  have c: "partitioned [0 ..< 60] (construct hero_container hero_config)"
    by (simp add: partitioned_iff exclusive_construct members_construct hero_config_def)
  from pool_partition_invariant
    [of hero_container hero_config
        "[Start, Spawn 100 200 1 1 (1/2) (1/2), Frame 16, Spawn 5 5 0 0 0 0, Frame 33, Stop, Reset]"
        "Spawn 100 200 1 1 (1/2) (1/2)" "[0 ..< 60]" "construct hero_container hero_config"] a b c
  show ?thesis by blast
qed

end
